theory Spec2Isabelle
  imports Main "HOL-Library.Word"
begin

unbundle bit_operations_syntax

section \<open>The sample-processing loop of brf_entropy.c\<close>

text \<open>
  The development embeds the conditioning pipeline of \<^verbatim>\<open>src/brf_entropy.c\<close>: the
  function \<^verbatim>\<open>store_hash_data\<close> (lines 199-216) and the nested loop of
  \<^verbatim>\<open>main\<close> over the sample buffer (lines 402-471).  The globals of the C file
  become the fields of one state record that every function takes and gives back.

  What the C file takes from headers that are not part of the source tree is a
  parameter of the model, collected in the record \<open>env\<close>: the macro
  \<^verbatim>\<open>BUFFER_SIZE\<close>, the table of FIPS tests (\<^verbatim>\<open>N_FIPS_TESTS\<close>,
  \<^verbatim>\<open>fips_test_mask\<close>, \<^verbatim>\<open>fips_test_names\<close>), the flags set by the command line,
  and the library calls \<^verbatim>\<open>fips_run_rng_test\<close>, \<^verbatim>\<open>SHA512\<close> and
  \<^verbatim>\<open>aes_init\<close>/\<^verbatim>\<open>aes_encrypt\<close>.

  In the file as it stands \<^verbatim>\<open>main\<close> prints a notice and calls
  \<^verbatim>\<open>exit\<close> at line 269, before it reaches the loop, and no call fills the
  sample buffer.  The embedding is of the loop as it is written, run on a sample
  buffer that is given as a list of bytes.
\<close>

type_synonym u8 = "8 word"

record 'c env =
  BUFFER_SIZE :: nat
  N_FIPS_TESTS :: nat
  fips_test_mask :: "nat \<Rightarrow> int"
  fips_test_names :: "nat \<Rightarrow> string"
  gflags_encryption :: int
  gflags_detach :: int
  fips_run_rng_test :: "'c \<Rightarrow> u8 list \<Rightarrow> int \<times> 'c"
  SHA512 :: "u8 list \<Rightarrow> u8 list"
  aes_encrypt :: "u8 list \<Rightarrow> u8 list \<Rightarrow> u8 list"

text \<open>
  The counters are \<^verbatim>\<open>unsigned int\<close> in C.  They are natural numbers here: the
  theorems below bound each of them (by 8, by \<^verbatim>\<open>BUFFER_SIZE + 1\<close>, by
  \<^verbatim>\<open>SHA512_DIGEST_LENGTH\<close>), so no wrap-around is ever reached.

  \<open>outputf\<close> is the sequence of \<^verbatim>\<open>fwrite\<close> calls on the stream
  \<^verbatim>\<open>output\<close>, one byte list for each call; \<open>log_lines\<close> is the sequence of
  lines given to \<^verbatim>\<open>log_line\<close> by the loop.  \<open>overrun\<close> keeps a record of the
  stores of line 409 whose index is not below \<^verbatim>\<open>BUFFER_SIZE\<close> (byte index and
  the mask that is or-ed in); where such a store lands is said at \<open>store_one\<close>.
\<close>

record 'c state =
  bitbuffer :: "u8 list"
  bitbuffer_old :: "u8 list"
  hash_buffer :: "u8 list"
  hash_data_buffer :: "u8 list"
  bitcounter :: nat
  buffercounter :: nat
  hash_data_counter :: nat
  hash_data_bit_counter :: nat
  hash_loop :: nat
  fipsctx :: 'c
  outputf :: "u8 list list"
  log_lines :: "string list"
  overrun :: "(nat \<times> u8) list"

definition SHA512_DIGEST_LENGTH :: nat where
  "SHA512_DIGEST_LENGTH = 64"

text \<open>The initial values of the globals (lines 74-84); \<open>ctx\<close> is what
  \<^verbatim>\<open>fips_init\<close> leaves in \<^verbatim>\<open>fipsctx\<close>.\<close>

definition init_state :: "'c env \<Rightarrow> 'c \<Rightarrow> 'c state" where
  "init_state env ctx =
     \<lparr> bitbuffer = replicate (BUFFER_SIZE env) 0,
       bitbuffer_old = replicate (BUFFER_SIZE env) 0,
       hash_buffer = replicate SHA512_DIGEST_LENGTH 0,
       hash_data_buffer = replicate SHA512_DIGEST_LENGTH 0,
       bitcounter = 0,
       buffercounter = 0,
       hash_data_counter = 0,
       hash_data_bit_counter = 0,
       hash_loop = 0,
       fipsctx = ctx,
       outputf = [],
       log_lines = [],
       overrun = [] \<rparr>"

subsection \<open>store_hash_data (lines 199-216)\<close>

definition hash_set_bit :: "int \<Rightarrow> 'c state \<Rightarrow> 'c state" where
  "hash_set_bit b s =
     (let i = hash_data_counter s; m = push_bit (hash_data_bit_counter s) (1 :: u8)
      in if b \<noteq> 0
         then s\<lparr>hash_data_buffer := (hash_data_buffer s)[i := (hash_data_buffer s ! i) OR m]\<rparr>
         else s\<lparr>hash_data_buffer := (hash_data_buffer s)[i := (hash_data_buffer s ! i) AND NOT m]\<rparr>)"

definition hash_advance :: "'c state \<Rightarrow> 'c state" where
  "hash_advance s =
     (let s1 = s\<lparr>hash_data_bit_counter := hash_data_bit_counter s + 1\<rparr>;
          s2 = (if hash_data_bit_counter s1 = 8
                then s1\<lparr>hash_data_bit_counter := 0, hash_data_counter := hash_data_counter s1 + 1\<rparr>
                else s1)
      in if hash_data_counter s2 = SHA512_DIGEST_LENGTH
         then s2\<lparr>hash_data_counter := 0, hash_loop := 1\<rparr>
         else s2)"

definition store_hash_data :: "int \<Rightarrow> 'c state \<Rightarrow> 'c state" where
  "store_hash_data b s = hash_advance (hash_set_bit b s)"

subsection \<open>The body of the window loop (lines 404-469)\<close>

text \<open>
  Line 409: \<^verbatim>\<open>bitbuffer[buffercounter] |= 1 << bitcounter\<close>.  The line has no
  bounds check, and the index reaches \<^verbatim>\<open>BUFFER_SIZE\<close> in every block (see
  \<open>buffer_full\<close>).  The arrays \<^verbatim>\<open>bitbuffer\<close> and \<^verbatim>\<open>bitbuffer_old\<close> are declared one
  after the other (lines 74-75) and lie so in memory: the byte at index
  \<^verbatim>\<open>BUFFER_SIZE + k\<close> of \<^verbatim>\<open>bitbuffer\<close> is the byte \<open>k\<close> of \<^verbatim>\<open>bitbuffer_old\<close>.
  So a store whose index is not below the length of \<open>bitbuffer\<close> is a store into
  \<open>bitbuffer_old\<close>; it is entered in \<open>overrun\<close> as well.
\<close>

definition store_one :: "'c state \<Rightarrow> 'c state" where
  "store_one s =
     (let i = buffercounter s; m = push_bit (bitcounter s) (1 :: u8); n = length (bitbuffer s)
      in if i < n
         then s\<lparr>bitbuffer := (bitbuffer s)[i := (bitbuffer s ! i) OR m]\<rparr>
         else s\<lparr>bitbuffer_old := (bitbuffer_old s)[i - n := (bitbuffer_old s ! (i - n)) OR m],
                overrun := overrun s @ [(i, m)]\<rparr>)"

text \<open>Lines 404-418: the two bits of the window at \<open>j\<close> and what is done with them.\<close>

definition debias :: "u8 \<Rightarrow> nat \<Rightarrow> 'c state \<Rightarrow> 'c state" where
  "debias byte j s =
     (let ch = drop_bit j byte AND 1; ch2 = drop_bit (j + 1) byte AND 1
      in if ch \<noteq> ch2
         then (let s1 = (if ch \<noteq> 0 then store_one s else s)
               in s1\<lparr>bitcounter := bitcounter s1 + 1\<rparr>)
         else (if ch \<noteq> 0 then store_hash_data 1 s else store_hash_data 0 s))"

text \<open>Lines 420-424: is the byte full?\<close>

definition byte_full :: "'c state \<Rightarrow> 'c state" where
  "byte_full s =
     (if bitcounter s \<ge> 8
      then s\<lparr>buffercounter := buffercounter s + 1, bitcounter := 0\<rparr>
      else s)"

text \<open>Lines 432-447: the encrypted branch.  \<open>aes_encrypt env key\<close> stands for
  \<^verbatim>\<open>aes_init\<close> on the key followed by \<^verbatim>\<open>aes_encrypt\<close>; its result is the
  ciphertext of length \<^verbatim>\<open>aes_len\<close>.\<close>

definition encrypt_and_write :: "'c env \<Rightarrow> 'c state \<Rightarrow> 'c state" where
  "encrypt_and_write env s =
     (if hash_loop s \<noteq> 0
      then (let s1 = s\<lparr>hash_buffer := SHA512 env (hash_data_buffer s)\<rparr>;
                ciphertext = aes_encrypt env (hash_buffer s1) (bitbuffer s1)
            in s1\<lparr>outputf := outputf s1 @ [ciphertext]\<rparr>)
      else s)"

text \<open>Lines 449-455: the whitening branch.  The loop runs the global
  \<^verbatim>\<open>buffercounter\<close> from 0 to \<^verbatim>\<open>BUFFER_SIZE\<close>.\<close>

definition xor_and_write :: "'c env \<Rightarrow> 'c state \<Rightarrow> 'c state" where
  "xor_and_write env s =
     (let n = BUFFER_SIZE env;
          s1 = s\<lparr>bitbuffer := map (\<lambda>k. (bitbuffer s ! k) XOR (bitbuffer_old s ! k)) [0..<n],
                 buffercounter := n\<rparr>;
          s2 = s1\<lparr>outputf := outputf s1 @ [take n (bitbuffer_old s1)]\<rparr>
      in s2\<lparr>bitbuffer_old := take n (bitbuffer s2)\<rparr>)"

text \<open>Lines 458-463: the report of the failed tests.\<close>

definition report_failures :: "'c env \<Rightarrow> int \<Rightarrow> 'c state \<Rightarrow> 'c state" where
  "report_failures env fips_result s =
     foldl (\<lambda>t j. if fips_result AND fips_test_mask env j \<noteq> 0
                   then (if gflags_detach env = 0
                         then t\<lparr>log_lines := log_lines t @ [''Failed: '' @ fips_test_names env j]\<rparr>
                         else t)
                   else t)
           s [0..<N_FIPS_TESTS env]"

text \<open>Lines 426-469.  The report loop of line 458 counts with the variable
  \<^verbatim>\<open>j\<close> of the window loop, so the function gives back the value of
  \<^verbatim>\<open>j\<close> as well.\<close>

definition buffer_full :: "'c env \<Rightarrow> nat \<Rightarrow> 'c state \<Rightarrow> nat \<times> 'c state" where
  "buffer_full env j s =
     (if buffercounter s > BUFFER_SIZE env
      then (let (fips_result, ctx) = fips_run_rng_test env (fipsctx s) (bitbuffer s);
                s1 = s\<lparr>fipsctx := ctx\<rparr>;
                (j1, s2) = (if fips_result = 0
                            then (j, if gflags_encryption env \<noteq> 0
                                     then encrypt_and_write env s1
                                     else xor_and_write env s1)
                            else (N_FIPS_TESTS env, report_failures env fips_result s1))
            in (j1, s2\<lparr>bitbuffer := replicate (BUFFER_SIZE env) 0, buffercounter := 0\<rparr>))
      else (j, s))"

definition window_body :: "'c env \<Rightarrow> u8 \<Rightarrow> nat \<Rightarrow> 'c state \<Rightarrow> nat \<times> 'c state" where
  "window_body env byte j s = buffer_full env j (byte_full (debias byte j s))"


subsection \<open>The two loops (lines 402-471)\<close>

text \<open>
  The window loop \<^verbatim>\<open>for (j=0; j < 6; j+= 2)\<close>.  Its body may assign \<^verbatim>\<open>j\<close>
  (see \<open>buffer_full\<close>), so the recursion is not structural; that it ends all the
  same is proved below.
\<close>

function window_loop :: "'c env \<Rightarrow> u8 \<Rightarrow> nat \<Rightarrow> 'c state \<Rightarrow> 'c state" where
  "window_loop env byte j s =
     (if j < 6
      then window_loop env byte (fst (window_body env byte j s) + 2)
                                (snd (window_body env byte j s))
      else s)"
  by pat_completeness auto

text \<open>The loop over the bytes of the sample buffer.  The globals live on between
  two batches, so a run over several batches is a run over their concatenation.\<close>

fun process :: "'c env \<Rightarrow> u8 list \<Rightarrow> 'c state \<Rightarrow> 'c state" where
  "process env [] s = s"
| "process env (byte # buffer) s = process env buffer (window_loop env byte 0 s)"

subsection \<open>Notions used by the theorems\<close>

text \<open>The position of the write cursor of the bit buffer, in bits.\<close>

definition cursor :: "'c state \<Rightarrow> nat" where
  "cursor s = 8 * buffercounter s + bitcounter s"

text \<open>The lines that \<open>report_failures\<close> writes for the verdict \<open>r\<close>.\<close>

definition failed_names :: "'c env \<Rightarrow> int \<Rightarrow> string list" where
  "failed_names env r =
     map (\<lambda>j. ''Failed: '' @ fips_test_names env j)
         (filter (\<lambda>j. r AND fips_test_mask env j \<noteq> 0) [0..<N_FIPS_TESTS env])"

text \<open>The discard pool is addressed within its bounds.\<close>

definition pool_ok :: "'c state \<Rightarrow> bool" where
  "pool_ok s \<longleftrightarrow>
     hash_data_counter s < SHA512_DIGEST_LENGTH \<and> hash_data_bit_counter s < 8 \<and>
     length (hash_data_buffer s) = SHA512_DIGEST_LENGTH"

text \<open>The shape of the states the loop is in between two windows.\<close>

definition state_ok :: "'c env \<Rightarrow> 'c state \<Rightarrow> bool" where
  "state_ok env s \<longleftrightarrow>
     length (bitbuffer s) = BUFFER_SIZE env \<and> length (bitbuffer_old s) = BUFFER_SIZE env \<and>
     bitcounter s < 8 \<and> buffercounter s \<le> BUFFER_SIZE env \<and> pool_ok s"

text \<open>A sequence of discarded bits given to the pool, one call of
  \<open>store_hash_data\<close> for each.\<close>

definition feed :: "int list \<Rightarrow> 'c state \<Rightarrow> 'c state" where
  "feed bits s = foldl (\<lambda>t b. store_hash_data b t) s bits"

text \<open>The position of the write cursor of the pool, in bits.\<close>

definition pool_pos :: "'c state \<Rightarrow> nat" where
  "pool_pos s = 8 * hash_data_counter s + hash_data_bit_counter s"

subsection \<open>A small instance\<close>

text \<open>
  An environment on which the loop can be run: a buffer of one byte, five tests
  with the masks 1, 2, 4, 8, 16, a health test that answers the fixed verdict
  \<open>r\<close> and keeps in its context the blocks it was given, the identity for the
  digest and a cipher that adds the sum of the key bytes to every byte.
\<close>

definition toy_encrypt :: "u8 list \<Rightarrow> u8 list \<Rightarrow> u8 list" where
  "toy_encrypt k p = map (\<lambda>x. x + sum_list k) p"

definition toy_decrypt :: "u8 list \<Rightarrow> u8 list \<Rightarrow> u8 list" where
  "toy_decrypt k c = map (\<lambda>x. x - sum_list k) c"

definition demo_env :: "int \<Rightarrow> int \<Rightarrow> int \<Rightarrow> (u8 list list) env" where
  "demo_env e d r =
     \<lparr> BUFFER_SIZE = 1, N_FIPS_TESTS = 5,
       fips_test_mask = (\<lambda>j. 2 ^ j),
       fips_test_names =
         (\<lambda>j. [''Monobit'', ''Poker'', ''Runs'', ''Long run'', ''Continuous run''] ! j),
       gflags_encryption = e, gflags_detach = d,
       fips_run_rng_test = (\<lambda>c blk. (r, c @ [blk])),
       SHA512 = (\<lambda>p. p),
       aes_encrypt = toy_encrypt \<rparr>"

definition demo_init :: "(u8 list list) state" where
  "demo_init = init_state (demo_env 0 0 0) []"

text \<open>Every bit of the bit buffer at or after the write cursor is 0.\<close>

definition zero_beyond :: "'c state \<Rightarrow> bool" where
  "zero_beyond s \<longleftrightarrow>
     (\<forall>k \<in> {0..<length (bitbuffer s)}. \<forall>b \<in> {0..<8}.
        buffercounter s < k \<or> (k = buffercounter s \<and> bitcounter s \<le> b)
        \<longrightarrow> \<not> bit (bitbuffer s ! k) b)"

text \<open>The state in which line 427 asks whether the buffer is full: the window at
  \<open>j\<close> has been treated and the byte cursor advanced.\<close>

definition candidate :: "u8 \<Rightarrow> nat \<Rightarrow> 'c state \<Rightarrow> 'c state" where
  "candidate byte j s = byte_full (debias byte j s)"

text \<open>Modelled from the spec: the cipher behind \<^verbatim>\<open>aes_init\<close> and
  \<^verbatim>\<open>aes_encrypt\<close> (util.c is not part of the source tree) and its decryption,
  which the program never calls.  Section 4.4 of the specification: the block is
  encrypted with the key material "as a symmetric cipher key", with enough metadata
  "for the consumer to decode it".  So decryption under a key undoes encryption
  under that key.\<close>

definition symmetric_cipher ::
  "(u8 list \<Rightarrow> u8 list \<Rightarrow> u8 list) \<Rightarrow> (u8 list \<Rightarrow> u8 list \<Rightarrow> u8 list) \<Rightarrow> bool" where
  "symmetric_cipher enc dec \<longleftrightarrow> (\<forall>k p. dec k (enc k p) = p)"

text \<open>What a run of the small instance shows: the blocks given to the health test,
  the writes, the retained block, the log and the priming flag.\<close>

definition observed ::
  "(u8 list list) state \<Rightarrow> u8 list list \<times> u8 list list \<times> u8 list \<times> string list \<times> nat" where
  "observed s = (fipsctx s, outputf s, bitbuffer_old s, log_lines s, hash_loop s)"


definition dropped_block :: "u8 list" where
  "dropped_block = replicate 6 0x15 @ replicate 171 0x00 @ replicate 5 0x2A"

definition full_ones :: "(u8 list list) state" where
  "full_ones = candidate 0x15 0 (process (demo_env 0 0 0) (replicate 5 0x15) demo_init)"



definition primed_full :: "(u8 list list) state" where
  "primed_full = demo_init\<lparr>hash_loop := 1, hash_data_buffer := replicate 64 0xFF,
                            bitbuffer := [0xA5], buffercounter := 2\<rparr>"

text \<open>The two bits of the window at \<open>j\<close> differ, so the window emits a bit.\<close>

definition emits :: "u8 \<Rightarrow> nat \<Rightarrow> bool" where
  "emits byte j \<longleftrightarrow> drop_bit j byte AND 1 \<noteq> drop_bit (j + 1) byte AND 1"

text \<open>Invariants of runs over a constant stream: of the bytes \<^verbatim>\<open>0x15\<close>, whose
  windows all emit the bit 1, before the first health test (\<open>ones_inv\<close>); of the
  bytes \<^verbatim>\<open>0x2A\<close>, whose windows all emit the bit 0, in encrypted mode
  (\<open>idle_pool\<close>) and in whitening mode with a health test that passes every block
  (\<open>counted\<close>, after \<open>k\<close> emitted bits).\<close>

definition ones_inv :: "'c env \<Rightarrow> 'c \<Rightarrow> nat \<Rightarrow> 'c state \<Rightarrow> bool" where
  "ones_inv env ctx k s \<longleftrightarrow>
     state_ok env s \<and> cursor s = k \<and> fipsctx s = ctx \<and> outputf s = [] \<and>
     length (overrun s) = k - 8 * BUFFER_SIZE env"

definition idle_pool :: "'c state \<Rightarrow> bool" where
  "idle_pool s \<longleftrightarrow>
     hash_loop s = 0 \<and> hash_data_counter s = 0 \<and> hash_data_bit_counter s = 0 \<and>
     hash_data_buffer s = replicate SHA512_DIGEST_LENGTH 0 \<and> outputf s = []"

definition counted :: "'c env \<Rightarrow> nat \<Rightarrow> 'c state \<Rightarrow> bool" where
  "counted env k s \<longleftrightarrow>
     state_ok env s \<and> cursor s = k mod (8 * (BUFFER_SIZE env + 1)) \<and>
     length (outputf s) = k div (8 * (BUFFER_SIZE env + 1))"

text \<open>The small instance with the buffer size that the comment of line 428 names.\<close>

definition env_2500 :: "int \<Rightarrow> (u8 list list) env" where
  "env_2500 e = (demo_env e 0 0)\<lparr>BUFFER_SIZE := 2500\<rparr>"

section \<open>Basic facts\<close>

lemma report_failures_eq:
  "report_failures env r s =
     s\<lparr>log_lines := log_lines s @ (if gflags_detach env = 0 then failed_names env r else [])\<rparr>"
proof -
  have "foldl (\<lambda>t j. if r AND fips_test_mask env j \<noteq> 0
                   then (if gflags_detach env = 0
                         then t\<lparr>log_lines := log_lines t @ [''Failed: '' @ fips_test_names env j]\<rparr>
                         else t)
                   else t) s js
        = s\<lparr>log_lines := log_lines s @
              (if gflags_detach env = 0
               then map (\<lambda>j. ''Failed: '' @ fips_test_names env j)
                        (filter (\<lambda>j. r AND fips_test_mask env j \<noteq> 0) js)
               else [])\<rparr>" for js
    by (induction js arbitrary: s) auto
  then show ?thesis
    by (simp add: report_failures_def failed_names_def)
qed

lemma debias_counters:
  "buffercounter (debias byte j s) = buffercounter s"
  "bitcounter (debias byte j s) \<le> bitcounter s + 1"
  "bitcounter s \<le> bitcounter (debias byte j s)"
  by (auto simp: debias_def store_one_def store_hash_data_def hash_advance_def
      hash_set_bit_def Let_def)

lemma buffer_full_no:
  "\<not> BUFFER_SIZE env < buffercounter s \<Longrightarrow> buffer_full env j s = (j, s)"
  by (simp add: buffer_full_def)

lemma buffer_full_yes:
  assumes "BUFFER_SIZE env < buffercounter s"
  shows "buffercounter (snd (buffer_full env j s)) = 0"
    and "bitcounter (snd (buffer_full env j s)) = bitcounter s"
  using assms
  by (auto simp: buffer_full_def Let_def encrypt_and_write_def xor_and_write_def
      report_failures_eq split: prod.splits)

text \<open>
  The window loop ends.  A window moves the cursor by one bit at most, and the body
  assigns \<^verbatim>\<open>j\<close> only when it has just put the cursor back to 0; from there no
  second block can fill up within the few windows that are left.
\<close>

termination window_loop
proof (relation "measure (\<lambda>(env, byte, j, s).
          100 * (if BUFFER_SIZE env < buffercounter s then 1 else 0)
        + (if 8 * (BUFFER_SIZE env + 1) - cursor s \<le> (7 - j) div 2 then 10 else 0)
        + (6 - j))", goal_cases)
  case 1
  show ?case by simp
next
  case (2 env byte j s)
  define t where "t = byte_full (debias byte j s)"
  have wb: "window_body env byte j s = buffer_full env j t"
    by (simp add: window_body_def t_def)
  have bc: "buffercounter s \<le> buffercounter t" "bitcounter t < 8"
    "cursor t \<le> cursor s + 1"
    using debias_counters[where byte=byte and j=j and s=s]
    by (auto simp: t_def byte_full_def cursor_def)
  show ?case
  proof (cases "BUFFER_SIZE env < buffercounter t")
    case False
    then have "window_body env byte j s = (j, t)"
      by (simp add: wb buffer_full_no)
    with False bc 2 show ?thesis
      by (auto simp: cursor_def split: if_splits)
  next
    case True
    note bf = buffer_full_yes[OF True, where j=j]
    show ?thesis
    proof (cases "BUFFER_SIZE env < buffercounter s")
      case True
      with bf 2 show ?thesis by (auto simp: wb cursor_def)
    next
      case False
      with True have "bitcounter t = 0"
        using debias_counters[where byte=byte and j=j and s=s]
        by (auto simp: t_def byte_full_def split: if_splits)
      moreover have "8 * (BUFFER_SIZE env + 1) - cursor s \<le> 1"
        using True bc by (auto simp: cursor_def)
      ultimately show ?thesis using bf 2 False
        by (auto simp: wb cursor_def buffer_full_def Let_def split: prod.splits if_splits)
    qed
  qed
qed

declare window_loop.simps [simp del]

lemma window_loop_invariant:
  assumes "\<And>j s. j < 6 \<Longrightarrow> P s \<Longrightarrow> P (snd (window_body env byte j s))"
    and "P s"
  shows "P (window_loop env byte j s)"
  using assms
proof (induction env byte j s rule: window_loop.induct)
  case (1 env byte j s)
  show ?case
  proof (cases "j < 6")
    case True
    have "P (snd (window_body env byte j s))"
      using True "1.prems" by blast
    then have "P (window_loop env byte (fst (window_body env byte j s) + 2)
                   (snd (window_body env byte j s)))"
      using True "1.IH" "1.prems"(1) by blast
    then show ?thesis
      using True window_loop.simps[of env byte j s] by simp
  next
    case False
    then show ?thesis
      using 1 window_loop.simps[of env byte j s] by simp
  qed
qed

lemma process_invariant:
  assumes "\<And>byte j s. byte \<in> set buffer \<Longrightarrow> j < 6 \<Longrightarrow> P s
             \<Longrightarrow> P (snd (window_body env byte j s))"
    and "P s"
  shows "P (process env buffer s)"
  using assms
proof (induction buffer arbitrary: s)
  case Nil
  then show ?case by simp
next
  case (Cons byte buffer)
  have "P (window_loop env byte 0 s)"
    by (rule window_loop_invariant) (use Cons.prems in auto)
  moreover have "\<And>b j s. b \<in> set buffer \<Longrightarrow> j < 6 \<Longrightarrow> P s
                  \<Longrightarrow> P (snd (window_body env b j s))"
    using Cons.prems(1) by simp
  ultimately show ?case
    using Cons.IH by simp
qed

subsection \<open>The discard pool\<close>

lemma store_hash_data_pool_ok: "pool_ok s \<Longrightarrow> pool_ok (store_hash_data b s)"
  by (auto simp: pool_ok_def store_hash_data_def hash_advance_def hash_set_bit_def Let_def)

lemma store_hash_data_pos:
  assumes "pool_ok s"
  shows "pool_pos (store_hash_data b s) = (pool_pos s + 1) mod (8 * SHA512_DIGEST_LENGTH)"
    and "hash_loop (store_hash_data b s) =
           (if pool_pos s + 1 = 8 * SHA512_DIGEST_LENGTH then 1 else hash_loop s)"
  using assms
  by (auto simp: pool_ok_def pool_pos_def store_hash_data_def hash_advance_def hash_set_bit_def
      Let_def SHA512_DIGEST_LENGTH_def)

lemma store_hash_data_other:
  "bitbuffer (store_hash_data b s) = bitbuffer s"
  "bitbuffer_old (store_hash_data b s) = bitbuffer_old s"
  "bitcounter (store_hash_data b s) = bitcounter s"
  "buffercounter (store_hash_data b s) = buffercounter s"
  "outputf (store_hash_data b s) = outputf s"
  "log_lines (store_hash_data b s) = log_lines s"
  "overrun (store_hash_data b s) = overrun s"
  "fipsctx (store_hash_data b s) = fipsctx s"
  by (auto simp: store_hash_data_def hash_advance_def hash_set_bit_def Let_def)

lemma init_state_pool: "pool_ok (init_state env ctx)" "pool_pos (init_state env ctx) = 0"
  "hash_loop (init_state env ctx) = 0"
  by (simp_all add: pool_ok_def pool_pos_def init_state_def SHA512_DIGEST_LENGTH_def)

lemma feed_snoc: "feed (bits @ [b]) s = store_hash_data b (feed bits s)"
  by (simp add: feed_def)

lemma feed_pool_ok: "pool_ok s \<Longrightarrow> pool_ok (feed bits s)"
  by (induction bits rule: rev_induct) (simp_all add: feed_snoc store_hash_data_pool_ok, simp add: feed_def)

lemma feed_init:
  "pool_pos (feed bits (init_state env ctx)) = length bits mod (8 * SHA512_DIGEST_LENGTH) \<and>
   hash_loop (feed bits (init_state env ctx)) = (if 8 * SHA512_DIGEST_LENGTH \<le> length bits then 1 else 0)"
proof (induction bits rule: rev_induct)
  case Nil
  then show ?case by (simp add: feed_def init_state_pool SHA512_DIGEST_LENGTH_def)
next
  case (snoc b bits)
  let ?s = "feed bits (init_state env ctx)"
  have ok: "pool_ok ?s" by (simp add: feed_pool_ok init_state_pool)
  have m: "Suc (length bits mod 512) = 512 \<Longrightarrow> 512 \<le> Suc (length bits)"
    by (metis mod_less_eq_dividend not_less_eq_eq)
  have n: "length bits < 512 \<Longrightarrow> length bits mod 512 = length bits" by simp
  show ?case
    using snoc store_hash_data_pos[OF ok, of b] m
    by (auto simp: feed_snoc SHA512_DIGEST_LENGTH_def mod_Suc)
qed


lemma store_one_other:
  "length (bitbuffer (store_one s)) = length (bitbuffer s)"
  "length (bitbuffer_old (store_one s)) = length (bitbuffer_old s)"
  "bitcounter (store_one s) = bitcounter s"
  "buffercounter (store_one s) = buffercounter s"
  "outputf (store_one s) = outputf s"
  "log_lines (store_one s) = log_lines s"
  "fipsctx (store_one s) = fipsctx s"
  "hash_loop (store_one s) = hash_loop s"
  "hash_data_buffer (store_one s) = hash_data_buffer s"
  "hash_data_counter (store_one s) = hash_data_counter s"
  "hash_data_bit_counter (store_one s) = hash_data_bit_counter s"
  by (auto simp: store_one_def Let_def)

lemma store_one_pool_ok: "pool_ok (store_one s) = pool_ok s"
  by (simp add: pool_ok_def store_one_other)

lemma debias_pool_ok: "pool_ok s \<Longrightarrow> pool_ok (debias byte j s)"
  by (simp add: debias_def Let_def store_hash_data_pool_ok)
    (simp add: pool_ok_def store_one_other)

lemma debias_lengths:
  "length (bitbuffer (debias byte j s)) = length (bitbuffer s)"
  "length (bitbuffer_old (debias byte j s)) = length (bitbuffer_old s)"
  by (simp_all add: debias_def Let_def store_one_other store_hash_data_other)

lemma buffer_full_fail:
  assumes "BUFFER_SIZE env < buffercounter s"
    and "fips_run_rng_test env (fipsctx s) (bitbuffer s) = (r, ctx)" and "r \<noteq> 0"
  shows "buffer_full env j s =
     (N_FIPS_TESTS env,
      s\<lparr>fipsctx := ctx,
        log_lines := log_lines s @ (if gflags_detach env = 0 then failed_names env r else []),
        bitbuffer := replicate (BUFFER_SIZE env) 0, buffercounter := 0\<rparr>)"
  using assms by (simp add: buffer_full_def report_failures_eq)

lemma buffer_full_whiten:
  assumes "BUFFER_SIZE env < buffercounter s"
    and "fips_run_rng_test env (fipsctx s) (bitbuffer s) = (0, ctx)"
    and "gflags_encryption env = 0"
  shows "buffer_full env j s =
     (j, s\<lparr>fipsctx := ctx,
          outputf := outputf s @ [take (BUFFER_SIZE env) (bitbuffer_old s)],
          bitbuffer_old := map (\<lambda>k. (bitbuffer s ! k) XOR (bitbuffer_old s ! k)) [0..<BUFFER_SIZE env],
          bitbuffer := replicate (BUFFER_SIZE env) 0, buffercounter := 0\<rparr>)"
  using assms by (simp add: buffer_full_def xor_and_write_def Let_def)

lemma buffer_full_encrypt:
  assumes "BUFFER_SIZE env < buffercounter s"
    and "fips_run_rng_test env (fipsctx s) (bitbuffer s) = (0, ctx)"
    and "gflags_encryption env \<noteq> 0" and "hash_loop s \<noteq> 0"
  shows "buffer_full env j s =
     (j, s\<lparr>fipsctx := ctx,
          hash_buffer := SHA512 env (hash_data_buffer s),
          outputf := outputf s @ [aes_encrypt env (SHA512 env (hash_data_buffer s)) (bitbuffer s)],
          bitbuffer := replicate (BUFFER_SIZE env) 0, buffercounter := 0\<rparr>)"
  using assms by (simp add: buffer_full_def encrypt_and_write_def Let_def)

lemma buffer_full_unprimed:
  assumes "BUFFER_SIZE env < buffercounter s"
    and "fips_run_rng_test env (fipsctx s) (bitbuffer s) = (0, ctx)"
    and "gflags_encryption env \<noteq> 0" and "hash_loop s = 0"
  shows "buffer_full env j s =
     (j, s\<lparr>fipsctx := ctx, bitbuffer := replicate (BUFFER_SIZE env) 0, buffercounter := 0\<rparr>)"
  using assms by (simp add: buffer_full_def encrypt_and_write_def Let_def)

lemma buffer_full_cases:
  obtains (none) "\<not> BUFFER_SIZE env < buffercounter s"
  | (fail) r ctx where "BUFFER_SIZE env < buffercounter s"
      "fips_run_rng_test env (fipsctx s) (bitbuffer s) = (r, ctx)" "r \<noteq> 0"
  | (whiten) ctx where "BUFFER_SIZE env < buffercounter s"
      "fips_run_rng_test env (fipsctx s) (bitbuffer s) = (0, ctx)" "gflags_encryption env = 0"
  | (encrypt) ctx where "BUFFER_SIZE env < buffercounter s"
      "fips_run_rng_test env (fipsctx s) (bitbuffer s) = (0, ctx)" "gflags_encryption env \<noteq> 0"
      "hash_loop s \<noteq> 0"
  | (unprimed) ctx where "BUFFER_SIZE env < buffercounter s"
      "fips_run_rng_test env (fipsctx s) (bitbuffer s) = (0, ctx)" "gflags_encryption env \<noteq> 0"
      "hash_loop s = 0"
  by (cases "fips_run_rng_test env (fipsctx s) (bitbuffer s)") blast

lemma window_body_state_ok:
  assumes "state_ok env s"
  shows "state_ok env (snd (window_body env byte j s))"
proof -
  define t where "t = byte_full (debias byte j s)"
  have t: "length (bitbuffer t) = BUFFER_SIZE env" "length (bitbuffer_old t) = BUFFER_SIZE env"
    "pool_ok t" "bitcounter t < 8" "buffercounter t \<le> BUFFER_SIZE env + 1"
    using debias_pool_ok[of s byte j] debias_lengths[of byte j s] assms
      debias_counters[where byte=byte and j=j and s=s]
    by (auto simp: t_def byte_full_def state_ok_def pool_ok_def)
  have wb: "window_body env byte j s = buffer_full env j t"
    by (simp add: window_body_def t_def)
  show ?thesis
  proof (cases rule: buffer_full_cases[of env t])
    case none
    then show ?thesis using t by (simp add: wb buffer_full_no state_ok_def)
  next
    case (fail r ctx)
    then show ?thesis using t by (simp add: wb buffer_full_fail state_ok_def pool_ok_def)
  next
    case (whiten ctx)
    then show ?thesis using t by (simp add: wb buffer_full_whiten state_ok_def pool_ok_def)
  next
    case (encrypt ctx)
    then show ?thesis using t by (simp add: wb buffer_full_encrypt state_ok_def pool_ok_def)
  next
    case (unprimed ctx)
    then show ?thesis using t by (simp add: wb buffer_full_unprimed state_ok_def pool_ok_def)
  qed
qed

lemma init_state_ok: "state_ok env (init_state env ctx)"
  by (simp add: state_ok_def pool_ok_def init_state_def SHA512_DIGEST_LENGTH_def)

lemma process_state_ok: "state_ok env s \<Longrightarrow> state_ok env (process env buffer s)"
  by (rule process_invariant[where P="state_ok env"]) (rule window_body_state_ok)

lemma window_body_hash_loop:
  assumes "hash_loop s \<noteq> 0"
  shows "hash_loop (snd (window_body env byte j s)) \<noteq> 0"
proof -
  define t where "t = byte_full (debias byte j s)"
  have t: "hash_loop t \<noteq> 0"
    using assms
    by (auto simp: t_def byte_full_def debias_def Let_def store_one_other
        store_hash_data_def hash_advance_def hash_set_bit_def)
  have wb: "window_body env byte j s = buffer_full env j t"
    by (simp add: window_body_def t_def)
  show ?thesis
  proof (cases rule: buffer_full_cases[of env t])
    case none
    then show ?thesis using t by (simp add: wb buffer_full_no)
  next
    case (fail r ctx)
    then show ?thesis using t by (simp add: wb buffer_full_fail)
  next
    case (whiten ctx)
    then show ?thesis using t by (simp add: wb buffer_full_whiten)
  next
    case (encrypt ctx)
    then show ?thesis using t by (simp add: wb buffer_full_encrypt)
  next
    case (unprimed ctx)
    then show ?thesis using t by (simp add: wb buffer_full_unprimed)
  qed
qed

section \<open>The discard pool: bounds and priming\<close>

text \<open>
  C10.  After every call of \<open>store_hash_data\<close> the cursors of the discard pool are
  within their bounds: \<open>hash_data_counter < SHA512_DIGEST_LENGTH\<close> and
  \<open>hash_data_bit_counter < 8\<close>, and the pool keeps its \<open>SHA512_DIGEST_LENGTH\<close>
  bytes.  This holds after any sequence of discarded bits given to the pool from
  the initial state, and after any run of the sample loop, so every store into
  \<open>hash_data_buffer\<close> has its index inside the buffer.
\<close>

theorem pool_cursor_in_range:
  "pool_ok (feed bits (init_state env ctx)) \<and> pool_ok (process env buffer (init_state env ctx))"
  using feed_pool_ok[OF init_state_pool(1), of bits env ctx]
    process_state_ok[OF init_state_ok, of env buffer ctx]
  by (simp add: state_ok_def)

text \<open>
  C4.  After \<open>n\<close> discarded bits the flag \<open>hash_loop\<close> is set exactly if
  \<open>n\<close> has reached \<open>8 * SHA512_DIGEST_LENGTH\<close>, the number of stores after which
  the write cursor, which stands at bit \<open>n mod (8 * SHA512_DIGEST_LENGTH)\<close>, has
  gone through every byte of the pool and is back at 0.  Once set, the flag stays
  set: under further stores and under any run of the sample loop, with its block
  resets and its failed health tests.
\<close>

theorem priming_flag:
  "hash_loop (feed bits (init_state env ctx)) =
     (if 8 * SHA512_DIGEST_LENGTH \<le> length bits then 1 else 0) \<and>
   8 * hash_data_counter (feed bits (init_state env ctx))
     + hash_data_bit_counter (feed bits (init_state env ctx))
     = length bits mod (8 * SHA512_DIGEST_LENGTH) \<and>
   (hash_loop s \<noteq> 0 \<longrightarrow> hash_loop (store_hash_data b s) \<noteq> 0) \<and>
   (hash_loop s \<noteq> 0 \<longrightarrow> hash_loop (process env' buffer s) \<noteq> 0)"
proof -
  have "hash_loop s \<noteq> 0 \<Longrightarrow> hash_loop (process env' buffer s) \<noteq> 0"
    by (rule process_invariant[where P="\<lambda>s. hash_loop s \<noteq> 0"]) (rule window_body_hash_loop)
  moreover have "hash_loop s \<noteq> 0 \<Longrightarrow> hash_loop (store_hash_data b s) \<noteq> 0"
    by (auto simp: store_hash_data_def hash_advance_def hash_set_bit_def Let_def)
  ultimately show ?thesis
    using feed_init[of bits env ctx] by (simp add: pool_pos_def)
qed

theorem priming_flag_witness:
  "hash_loop (feed (replicate 512 1) demo_init) \<noteq> 0 \<and>
   hash_loop (store_hash_data 0 (feed (replicate 512 1) demo_init)) \<noteq> 0 \<and>
   hash_loop (process (demo_env 1 0 3) [0x15, 0x00] (feed (replicate 512 1) demo_init)) \<noteq> 0"
  using priming_flag[of "replicate 512 1" "demo_env 0 0 0" "[]"
      "feed (replicate 512 1) demo_init" 0 "demo_env 1 0 3" "[0x15, 0x00]"]
  by (simp add: demo_init_def SHA512_DIGEST_LENGTH_def)

section \<open>The bit buffer beyond the cursor\<close>

lemma bit_or_mask:
  "bit (w OR push_bit n (1 :: u8)) b \<longleftrightarrow> bit w b \<or> (b = n \<and> n < 8)"
  "bit (w OR (2 :: u8) ^ n) b \<longleftrightarrow> bit w b \<or> (b = n \<and> n < 8)"
  by (auto simp: bit_simps)

lemma zero_beyond_store_hash_data: "zero_beyond (store_hash_data b s) = zero_beyond s"
  by (simp add: zero_beyond_def store_hash_data_other)

lemma zero_beyond_debias: "zero_beyond s \<Longrightarrow> zero_beyond (debias byte j s)"
  by (auto simp: debias_def Let_def zero_beyond_store_hash_data)
    (auto simp: zero_beyond_def store_one_def Let_def nth_list_update bit_or_mask)

lemma zero_beyond_byte_full: "zero_beyond s \<Longrightarrow> zero_beyond (byte_full s)"
  by (auto simp: zero_beyond_def byte_full_def)

lemma buffer_full_reset:
  assumes "BUFFER_SIZE env < buffercounter s"
  shows "bitbuffer (snd (buffer_full env j s)) = replicate (BUFFER_SIZE env) 0"
    and "buffercounter (snd (buffer_full env j s)) = 0"
  using assms
  by (cases rule: buffer_full_cases[of env s];
      simp add: buffer_full_fail buffer_full_whiten buffer_full_encrypt buffer_full_unprimed)+

lemma zero_beyond_buffer_full: "zero_beyond s \<Longrightarrow> zero_beyond (snd (buffer_full env j s))"
proof (cases "BUFFER_SIZE env < buffercounter s")
  case True
  then show ?thesis
    using buffer_full_reset[OF True, of j] by (simp add: zero_beyond_def)
next
  case False
  then show "zero_beyond s \<Longrightarrow> ?thesis" by (simp add: buffer_full_no)
qed

lemma zero_beyond_window_body: "zero_beyond s \<Longrightarrow> zero_beyond (snd (window_body env byte j s))"
  by (simp add: window_body_def zero_beyond_buffer_full zero_beyond_byte_full zero_beyond_debias)

lemma zero_beyond_init: "zero_beyond (init_state env ctx)"
  by (simp add: zero_beyond_def init_state_def)

lemma stored_bit:
  assumes "zero_beyond s" "buffercounter s < length (bitbuffer s)" "bitcounter s < 8"
    and "drop_bit j byte AND 1 \<noteq> drop_bit (j + 1) byte AND 1"
  shows "bit (bitbuffer (debias byte j s) ! buffercounter s) (bitcounter s)
           \<longleftrightarrow> drop_bit j byte AND 1 \<noteq> 0"
  using assms
  by (auto simp: debias_def Let_def store_one_def zero_beyond_def bit_or_mask)

text \<open>
  C9.  At every point of the loop every bit of \<open>bitbuffer\<close> at or after the write
  cursor (byte \<open>buffercounter\<close>, bit \<open>bitcounter\<close>) is 0: this holds in the initial
  state, is kept by each part of the window body, and so holds after any run.
  Because of it, a window that emits a bit leaves exactly that bit at the cursor,
  also when the bit is 0 and nothing is stored.  After every tested block, passed
  or failed, the whole buffer is zero again and the byte cursor is 0.
\<close>

theorem zeros_beyond_cursor:
  "zero_beyond (init_state env ctx) \<and>
   zero_beyond (process env buffer (init_state env ctx)) \<and>
   (zero_beyond s \<longrightarrow>
      zero_beyond (debias byte j s) \<and> zero_beyond (byte_full (debias byte j s)) \<and>
      zero_beyond (snd (window_body env byte j s))) \<and>
   (zero_beyond s \<and> buffercounter s < length (bitbuffer s) \<and> bitcounter s < 8 \<and>
    drop_bit j byte AND 1 \<noteq> drop_bit (j + 1) byte AND 1 \<longrightarrow>
      (bit (bitbuffer (debias byte j s) ! buffercounter s) (bitcounter s)
         \<longleftrightarrow> drop_bit j byte AND 1 \<noteq> 0)) \<and>
   (BUFFER_SIZE env < buffercounter s \<longrightarrow>
      bitbuffer (snd (buffer_full env j s)) = replicate (BUFFER_SIZE env) 0 \<and>
      buffercounter (snd (buffer_full env j s)) = 0)"
proof -
  have "zero_beyond (process env buffer (init_state env ctx))"
    by (rule process_invariant[where P=zero_beyond]) (simp_all add: zero_beyond_window_body zero_beyond_init)
  then show ?thesis
    using zero_beyond_init[of env ctx] zero_beyond_debias[of s byte j]
      zero_beyond_byte_full[of "debias byte j s"] zero_beyond_window_body[of s env byte j]
      stored_bit[of s j byte] buffer_full_reset[of env s j]
    by blast
qed


theorem zeros_beyond_cursor_witness:
  "zero_beyond (snd (window_body (demo_env 0 0 0) 0x15 0 demo_init)) \<and>
   bit (bitbuffer (debias 0x15 0 demo_init) ! 0) 0 \<and>
   bitbuffer (snd (buffer_full (demo_env 0 0 0) 0 (demo_init\<lparr>buffercounter := 2\<rparr>))) = [0] \<and>
   \<not> bit (bitbuffer (process (demo_env 0 0 0) [0x15] demo_init) ! 0) 3"
proof -
  let ?env = "demo_env 0 0 0"
  let ?s = "process ?env [0x15] demo_init"
  have c: "buffercounter demo_init = 0" "bitcounter demo_init = 0"
    "length (bitbuffer demo_init) = 1" "BUFFER_SIZE ?env = 1"
    "drop_bit 0 (0x15 :: u8) AND 1 \<noteq> drop_bit (0 + 1) (0x15 :: u8) AND 1"
    "drop_bit 0 (0x15 :: u8) AND 1 \<noteq> 0"
    by (simp_all add: demo_init_def demo_env_def init_state_def)
  have d: "buffercounter ?s = 0" "bitcounter ?s = 3" "length (bitbuffer ?s) = 1"
    by code_simp+
  have "zero_beyond ?s"
    using zeros_beyond_cursor[where env="?env" and ctx="[]" and buffer="[0x15]"] by (simp add: demo_init_def)
  then have 1: "\<not> bit (bitbuffer ?s ! 0) 3"
    unfolding zero_beyond_def using d by simp
  have 2: "zero_beyond (snd (window_body ?env 0x15 0 demo_init))"
    "bit (bitbuffer (debias 0x15 0 demo_init) ! 0) 0"
    using zeros_beyond_cursor[where env="?env" and ctx="[]" and buffer="[]" and s=demo_init and byte="0x15" and j=0] c
    by (simp_all add: demo_init_def)
  have 3: "bitbuffer (snd (buffer_full ?env 0 (demo_init\<lparr>buffercounter := 2\<rparr>))) = [0]"
    using zeros_beyond_cursor[where env="?env" and ctx="[]" and buffer="[]" and s="demo_init\<lparr>buffercounter := 2\<rparr>" and byte=0 and j=0] c
    by simp
  show ?thesis using 1 2 3 by simp
qed

section \<open>The full-block path\<close>

lemma window_body_candidate: "window_body env byte j s = buffer_full env j (candidate byte j s)"
  by (simp add: window_body_def candidate_def)

lemma candidate_fields:
  "outputf (candidate byte j s) = outputf s"
  "log_lines (candidate byte j s) = log_lines s"
  "length (bitbuffer_old (candidate byte j s)) = length (bitbuffer_old s)"
  "fipsctx (candidate byte j s) = fipsctx s"
  "length (bitbuffer (candidate byte j s)) = length (bitbuffer s)"
  by (auto simp: candidate_def byte_full_def debias_def Let_def store_one_other store_hash_data_other)

text \<open>A window whose store, if it makes one, is within \<open>bitbuffer\<close> leaves the
  retained block alone.\<close>

lemma candidate_retained:
  "overrun (candidate byte j s) = overrun s
     \<Longrightarrow> bitbuffer_old (candidate byte j s) = bitbuffer_old s"
  by (auto simp: candidate_def byte_full_def debias_def Let_def store_one_def
      store_hash_data_other split: if_splits)

lemma candidate_full:
  assumes "buffercounter s \<le> BUFFER_SIZE env"
    and "BUFFER_SIZE env < buffercounter (candidate byte j s)"
  shows "bitcounter (candidate byte j s) = 0"
  using assms debias_counters[where byte=byte and j=j and s=s]
  by (auto simp: candidate_def byte_full_def split: if_splits)



lemma window_body_unprimed_output:
  assumes "gflags_encryption env \<noteq> 0" and "hash_loop s = 0 \<longrightarrow> outputf s = []"
  shows "hash_loop (snd (window_body env byte j s)) = 0
           \<longrightarrow> outputf (snd (window_body env byte j s)) = []"
proof -
  define t where "t = candidate byte j s"
  have hl: "hash_loop s \<noteq> 0 \<Longrightarrow> hash_loop t \<noteq> 0"
    by (auto simp: t_def candidate_def byte_full_def debias_def Let_def store_one_other
        store_hash_data_def hash_advance_def hash_set_bit_def)
  have t: "hash_loop t = 0 \<longrightarrow> outputf t = []"
    using assms(2) hl by (auto simp: t_def candidate_fields)
  show ?thesis
    unfolding window_body_candidate t_def[symmetric]
  proof (cases rule: buffer_full_cases[of env t])
    case none
    then show "hash_loop (snd (buffer_full env j t)) = 0 \<longrightarrow> outputf (snd (buffer_full env j t)) = []"
      using t by (simp add: buffer_full_no)
  next
    case (fail r ctx)
    then show "hash_loop (snd (buffer_full env j t)) = 0 \<longrightarrow> outputf (snd (buffer_full env j t)) = []"
      using t by (simp add: buffer_full_fail)
  next
    case (whiten ctx)
    then show "hash_loop (snd (buffer_full env j t)) = 0 \<longrightarrow> outputf (snd (buffer_full env j t)) = []"
      using assms(1) by simp
  next
    case (encrypt ctx)
    then show "hash_loop (snd (buffer_full env j t)) = 0 \<longrightarrow> outputf (snd (buffer_full env j t)) = []"
      using t by (simp add: buffer_full_encrypt)
  next
    case (unprimed ctx)
    then show "hash_loop (snd (buffer_full env j t)) = 0 \<longrightarrow> outputf (snd (buffer_full env j t)) = []"
      using t by (simp add: buffer_full_unprimed)
  qed
qed

lemma toy_cipher: "symmetric_cipher toy_encrypt toy_decrypt"
  by (simp add: symmetric_cipher_def toy_encrypt_def toy_decrypt_def o_def)

lemma full_ones_eq:
  "full_ones = demo_init\<lparr>bitbuffer := [0xFF], bitbuffer_old := [0xFF],
     buffercounter := 2, bitcounter := 0,
     overrun := [(1, 1), (1, 2), (1, 4), (1, 8), (1, 16), (1, 32), (1, 64), (1, 128)]\<rparr>"
  by code_simp

section \<open>Whitening\<close>




section \<open>Health-test failure\<close>

text \<open>
  C7 (as amended).  When a window completes a block and the health test answers a
  verdict \<open>r \<noteq> 0\<close>, nothing is written to the output, the retained block is left
  as it stood when the test was made, the buffer is zeroed and both cursors are 0, so
  that no byte of the failed block remains anywhere and the next block starts
  from an empty accumulator; the loop goes on (the body returns a state, with
  \<^verbatim>\<open>j\<close> left at \<^verbatim>\<open>N_FIPS_TESTS\<close>).  The tests named by the verdict are logged
  when \<^verbatim>\<open>gflags_detach\<close> is 0, and nothing is logged when it is not.
\<close>

theorem failed_block_discarded:
  assumes "state_ok env s"
    and "BUFFER_SIZE env < buffercounter (candidate byte j s)"
    and "fips_run_rng_test env (fipsctx s) (bitbuffer (candidate byte j s)) = (r, ctx)"
    and "r \<noteq> 0"
  shows "window_body env byte j s =
           (N_FIPS_TESTS env,
            (candidate byte j s)
              \<lparr>fipsctx := ctx,
               log_lines := log_lines s @ (if gflags_detach env = 0 then failed_names env r else []),
               bitbuffer := replicate (BUFFER_SIZE env) 0, buffercounter := 0\<rparr>) \<and>
         outputf (snd (window_body env byte j s)) = outputf s \<and>
         log_lines (snd (window_body env byte j s))
           = log_lines s @ (if gflags_detach env = 0 then failed_names env r else []) \<and>
         bitbuffer_old (snd (window_body env byte j s)) = bitbuffer_old (candidate byte j s) \<and>
         bitbuffer (snd (window_body env byte j s)) = replicate (BUFFER_SIZE env) 0 \<and>
         buffercounter (snd (window_body env byte j s)) = 0 \<and>
         bitcounter (snd (window_body env byte j s)) = 0"
proof -
  have "bitcounter (candidate byte j s) = 0"
    using assms(1,2) by (intro candidate_full) (auto simp: state_ok_def)
  then show ?thesis
    using assms buffer_full_fail[of env "candidate byte j s" r ctx j]
    by (simp add: window_body_candidate candidate_fields)
qed

theorem failed_block_discarded_witness:
  "outputf (snd (window_body (demo_env 0 0 3) 0x15 0
       (process (demo_env 0 0 3) (replicate 5 0x15) demo_init))) = [] \<and>
   log_lines (snd (window_body (demo_env 0 0 3) 0x15 0
       (process (demo_env 0 0 3) (replicate 5 0x15) demo_init)))
     = [''Failed: Monobit'', ''Failed: Poker''] \<and>
   cursor (snd (window_body (demo_env 0 0 3) 0x15 0
       (process (demo_env 0 0 3) (replicate 5 0x15) demo_init))) = 0 \<and>
   bitbuffer_old (snd (window_body (demo_env 0 0 3) 0x15 0
       (process (demo_env 0 0 3) (replicate 5 0x15) demo_init))) = [0xFF]"
proof -
  let ?env = "demo_env 0 0 3"
  let ?s = "process ?env (replicate 5 0x15) demo_init"
  have s: "?s = demo_init\<lparr>bitbuffer := [0xFF], bitbuffer_old := [0x7F],
             buffercounter := 1, bitcounter := 7,
             overrun := [(1, 1), (1, 2), (1, 4), (1, 8), (1, 16), (1, 32), (1, 64)]\<rparr>"
    by code_simp
  have h1: "state_ok ?env ?s"
    unfolding s by code_simp
  have h2: "BUFFER_SIZE ?env < buffercounter (candidate 0x15 0 ?s)"
    unfolding s by code_simp
  have h3: "fips_run_rng_test ?env (fipsctx ?s) (bitbuffer (candidate 0x15 0 ?s)) = (3, [[0xFF]])"
    unfolding s by code_simp
  have h4: "(3 :: int) \<noteq> 0" by simp
  have f: "failed_names ?env 3 = [''Failed: Monobit'', ''Failed: Poker'']"
    "gflags_detach ?env = 0" "outputf ?s = []" "log_lines ?s = []"
    "bitbuffer_old (candidate 0x15 0 ?s) = [0xFF]"
    unfolding s by code_simp+
  show ?thesis
    using failed_block_discarded[OF h1 h2 h3 h4, THEN conjunct2] f by (simp add: cursor_def)
qed


text \<open>
  C7 as stated fails for a detached process.  The verdict 3 names the tests Monobit
  and Poker for the block 255, and no line is logged.  (The retained block is 255:
  the eight bits emitted after the block was full were stored beyond the buffer.)
\<close>

theorem detached_failure_counterexample:
  "failed_names (demo_env 0 1 3) 3 = [''Failed: Monobit'', ''Failed: Poker''] \<and>
   observed (process (demo_env 0 1 3) (replicate 6 0x15) demo_init)
     = ([[0xFF]], [], [0xFF], [], 0)"
  by code_simp

section \<open>Encrypted mode\<close>

text \<open>
  C6.  In encrypted mode, when a block passes the health test and the pool is
  primed, what is written is the encryption of the block in \<open>bitbuffer\<close> under the
  key \<open>SHA512\<close> of the pool as it stands at this moment; the key is put in
  \<open>hash_buffer\<close> anew at each block.  With a cipher whose decryption undoes its
  encryption, decrypting what was written under the digest of that pool gives the
  block back.
\<close>

theorem encrypted_block_decrypts:
  assumes "symmetric_cipher (aes_encrypt env) aes_decrypt"
    and "BUFFER_SIZE env < buffercounter t"
    and "fips_run_rng_test env (fipsctx t) (bitbuffer t) = (0, ctx)"
    and "gflags_encryption env \<noteq> 0" and "hash_loop t \<noteq> 0"
  shows "outputf (snd (buffer_full env j t))
           = outputf t @ [aes_encrypt env (SHA512 env (hash_data_buffer t)) (bitbuffer t)] \<and>
         aes_decrypt (SHA512 env (hash_data_buffer t)) (last (outputf (snd (buffer_full env j t))))
           = bitbuffer t \<and>
         hash_buffer (snd (buffer_full env j t)) = SHA512 env (hash_data_buffer t)"
  using assms buffer_full_encrypt[of env t ctx j]
  by (simp add: symmetric_cipher_def)

theorem encrypted_block_decrypts_witness:
  "outputf (snd (buffer_full (demo_env 1 0 0) 0 primed_full)) = [[0x65]] \<and>
   toy_decrypt (replicate 64 0xFF) (last (outputf (snd (buffer_full (demo_env 1 0 0) 0 primed_full))))
     = [0xA5]"
proof -
  let ?env = "demo_env 1 0 0"
  have h: "symmetric_cipher (aes_encrypt ?env) toy_decrypt"
    "BUFFER_SIZE ?env < buffercounter primed_full"
    "fips_run_rng_test ?env (fipsctx primed_full) (bitbuffer primed_full) = (0, [[0xA5]])"
    "gflags_encryption ?env \<noteq> 0" "hash_loop primed_full \<noteq> 0"
    using toy_cipher by (simp_all add: demo_env_def primed_full_def demo_init_def init_state_def)
  have f: "outputf primed_full = []" "bitbuffer primed_full = [0xA5]"
    "SHA512 ?env (hash_data_buffer primed_full) = replicate 64 0xFF"
    "aes_encrypt ?env (replicate 64 0xFF) [0xA5] = [0x65]"
    by code_simp+
  note w = encrypted_block_decrypts[OF h, of 0]
  have 1: "outputf (snd (buffer_full ?env 0 primed_full)) = [[0x65]]"
    using w[THEN conjunct1] f by simp
  have 2: "toy_decrypt (replicate 64 0xFF) (last (outputf (snd (buffer_full ?env 0 primed_full))))
             = [0xA5]"
    using w[THEN conjunct2, THEN conjunct1] unfolding f(2) f(3) .
  show ?thesis using 1 2 by (rule conjI)
qed

text \<open>
  C3 (as amended).  In encrypted mode nothing is written as long as the pool is not
  primed: after any run that ends with \<open>hash_loop = 0\<close> the output is empty.  A
  block that passes the health test while the pool is not primed is not kept: the
  full-block path leaves the state as it was but for the context of the health
  test, the zeroed buffer and the byte cursor, so the block is gone.
\<close>

theorem encrypted_mode_waits_for_pool:
  assumes "gflags_encryption env \<noteq> 0"
  shows "(hash_loop (process env buffer (init_state env c0)) = 0
            \<longrightarrow> outputf (process env buffer (init_state env c0)) = []) \<and>
         (BUFFER_SIZE env < buffercounter t \<and> hash_loop t = 0 \<and>
          fips_run_rng_test env (fipsctx t) (bitbuffer t) = (0, ctx)
            \<longrightarrow> buffer_full env j t =
                  (j, t\<lparr>fipsctx := ctx, bitbuffer := replicate (BUFFER_SIZE env) 0,
                        buffercounter := 0\<rparr>))"
proof -
  have "hash_loop (process env buffer (init_state env c0)) = 0
            \<longrightarrow> outputf (process env buffer (init_state env c0)) = []"
    by (rule process_invariant[where P="\<lambda>s. hash_loop s = 0 \<longrightarrow> outputf s = []"])
      (use assms in \<open>simp_all add: window_body_unprimed_output init_state_def\<close>)
  then show ?thesis
    using assms buffer_full_unprimed[of env t ctx j] by blast
qed


theorem encrypted_mode_waits_for_pool_witness:
  "outputf (process (demo_env 1 0 0) (replicate 6 0x15) demo_init) = [] \<and>
   buffer_full (demo_env 1 0 0) 0 full_ones
     = (0, full_ones\<lparr>fipsctx := [[0xFF]], bitbuffer := [0], buffercounter := 0\<rparr>)"
proof -
  let ?env = "demo_env 1 0 0"
  note t = full_ones_eq
  have h0: "gflags_encryption ?env \<noteq> 0" by (simp add: demo_env_def)
  have h1: "hash_loop (process ?env (replicate 6 0x15) (init_state ?env [])) = 0"
    by code_simp
  have h2: "BUFFER_SIZE ?env < buffercounter full_ones \<and> hash_loop full_ones = 0 \<and>
          fips_run_rng_test ?env (fipsctx full_ones) (bitbuffer full_ones) = (0, [[0xFF]])"
    unfolding t by code_simp
  have e: "init_state ?env [] = demo_init" "replicate (BUFFER_SIZE ?env) (0 :: u8) = [0]"
    by (simp_all add: demo_init_def init_state_def demo_env_def)
  show ?thesis
    using encrypted_mode_waits_for_pool[OF h0, of "replicate 6 0x15" "[]" full_ones "[[0xFF]]" 0]
      h1 h2 e by simp
qed


text \<open>
  C3 as stated fails.  In the run over \<open>dropped_block\<close> the block 255 passes the
  health test before the pool is primed; the pool is primed afterwards and the next
  block, 3, is written.  The block 255 is never written.
\<close>

theorem unprimed_block_counterexample:
  "observed (process (demo_env 1 0 0) dropped_block demo_init)
     = ([[0xFF], [0x03]], [toy_encrypt (replicate 64 0) [0x03]], [0xFF], [], 1)"
  by code_simp

section \<open>Where a block ends\<close>

lemma process_append: "process env (xs @ ys) s = process env ys (process env xs s)"
  by (induction xs arbitrary: s) simp_all

lemma window_loop_unroll:
  assumes "fst (window_body env byte 0 s) = 0"
    and "fst (window_body env byte 2 (snd (window_body env byte 0 s))) = 2"
    and "fst (window_body env byte 4 (snd (window_body env byte 2 (snd (window_body env byte 0 s))))) = 4"
  shows "window_loop env byte 0 s =
           snd (window_body env byte 4 (snd (window_body env byte 2 (snd (window_body env byte 0 s)))))"
proof -
  let ?s0 = "snd (window_body env byte 0 s)"
  let ?s2 = "snd (window_body env byte 2 ?s0)"
  let ?s4 = "snd (window_body env byte 4 ?s2)"
  have "window_loop env byte 0 s = window_loop env byte (0 + 2) ?s0"
    using assms(1) window_loop.simps[of env byte 0 s] by (simp del: add_2_eq_Suc add_2_eq_Suc')
  also have "\<dots> = window_loop env byte (2 + 2) ?s2"
    using assms(2) window_loop.simps[of env byte 2 ?s0] by (simp del: add_2_eq_Suc add_2_eq_Suc')
  also have "\<dots> = window_loop env byte (4 + 2) ?s4"
    using assms(3) window_loop.simps[of env byte 4 ?s2] by (simp del: add_2_eq_Suc add_2_eq_Suc')
  also have "\<dots> = ?s4"
    using window_loop.simps[of env byte 6 ?s4] by simp
  finally show ?thesis .
qed

lemma candidate_cursor:
  assumes "state_ok env s"
  shows "cursor (candidate byte j s) = cursor s + (if emits byte j then 1 else 0)"
    and "bitcounter (candidate byte j s) < 8"
    and "BUFFER_SIZE env < buffercounter (candidate byte j s)
           \<longleftrightarrow> emits byte j \<and> cursor s + 1 = 8 * (BUFFER_SIZE env + 1)"
  using assms
  by (auto simp: state_ok_def candidate_def byte_full_def debias_def Let_def cursor_def emits_def
      store_one_other store_hash_data_other)

lemma fst_window_body_pass:
  assumes "\<And>c blk. fst (fips_run_rng_test env c blk) = 0"
  shows "fst (window_body env byte j s) = j"
proof -
  have "fst (buffer_full env j t) = j" for t
    using assms[of "fipsctx t" "bitbuffer t"]
    by (cases rule: buffer_full_cases[of env t])
      (simp_all add: buffer_full_no buffer_full_whiten buffer_full_encrypt buffer_full_unprimed)
  then show ?thesis by (simp add: window_body_candidate)
qed

lemma emits_15: "j \<in> {0, 2, 4} \<Longrightarrow> emits 0x15 j \<and> drop_bit j (0x15 :: u8) AND 1 \<noteq> 0"
  by (auto simp: emits_def)

lemma candidate_overrun:
  assumes "state_ok env s" "emits byte j" "drop_bit j byte AND 1 \<noteq> 0"
  shows "length (overrun (candidate byte j s))
           = length (overrun s) + (if buffercounter s < BUFFER_SIZE env then 0 else 1)"
  using assms
  by (auto simp: state_ok_def candidate_def byte_full_def debias_def Let_def emits_def
      store_one_def)

lemma ones_window:
  assumes inv: "ones_inv env ctx k s" and k: "k + 1 < 8 * (BUFFER_SIZE env + 1)"
    and j: "j \<in> {0, 2, 4}"
  shows "window_body env 0x15 j s = (j, candidate 0x15 j s)"
    and "ones_inv env ctx (k + 1) (candidate 0x15 j s)"
proof -
  have ok: "state_ok env s" and c: "cursor s = k"
    using inv by (simp_all add: ones_inv_def)
  note e = emits_15[OF j]
  have quiet: "\<not> BUFFER_SIZE env < buffercounter (candidate 0x15 j s)"
    using candidate_cursor(3)[OF ok, of "0x15" j] c k by simp
  then show wb: "window_body env 0x15 j s = (j, candidate 0x15 j s)"
    by (simp add: window_body_candidate buffer_full_no)
  have "state_ok env (candidate 0x15 j s)"
    using window_body_state_ok[OF ok, of "0x15" j] wb by simp
  moreover have "cursor (candidate 0x15 j s) = k + 1"
    using candidate_cursor(1)[OF ok, of "0x15" j] c e by simp
  moreover have "length (overrun (candidate 0x15 j s)) = k + 1 - 8 * BUFFER_SIZE env"
  proof -
    have "buffercounter s \<le> BUFFER_SIZE env" "bitcounter s < 8"
      using ok by (simp_all add: state_ok_def)
    then show ?thesis
      using candidate_overrun[OF ok, of "0x15" j] e inv c
      by (auto simp: ones_inv_def cursor_def)
  qed
  ultimately show "ones_inv env ctx (k + 1) (candidate 0x15 j s)"
    using inv by (simp add: ones_inv_def candidate_fields)
qed

lemma ones_byte:
  assumes inv: "ones_inv env ctx k s" and k: "k + 3 < 8 * (BUFFER_SIZE env + 1)"
  shows "ones_inv env ctx (k + 3) (window_loop env 0x15 0 s)"
proof -
  let ?s0 = "candidate 0x15 0 s"
  let ?s2 = "candidate 0x15 2 ?s0"
  let ?s4 = "candidate 0x15 4 ?s2"
  have w0: "window_body env 0x15 0 s = (0, ?s0)" and i0: "ones_inv env ctx (k + 1) ?s0"
    using ones_window[OF inv, of 0] k by simp_all
  have w2: "window_body env 0x15 2 ?s0 = (2, ?s2)" and i2: "ones_inv env ctx (k + 1 + 1) ?s2"
    using ones_window[OF i0, of 2] k by simp_all
  have w4: "window_body env 0x15 4 ?s2 = (4, ?s4)" and i4: "ones_inv env ctx (k + 1 + 1 + 1) ?s4"
    using ones_window[OF i2, of 4] k by simp_all
  have "window_loop env 0x15 0 s = ?s4"
    using window_loop_unroll[of env "0x15" s] w0 w2 w4 by simp
  then show ?thesis
    using i4 by (simp add: numeral_3_eq_3)
qed

lemma ones_run:
  assumes "3 * n < 8 * (BUFFER_SIZE env + 1)"
  shows "ones_inv env ctx (3 * n) (process env (replicate n 0x15) (init_state env ctx))"
  using assms
proof (induction n)
  case 0
  then show ?case
    using init_state_ok[of env ctx] by (simp add: ones_inv_def cursor_def init_state_def)
next
  case (Suc n)
  have "ones_inv env ctx (3 * n) (process env (replicate n 0x15) (init_state env ctx))"
    using Suc by simp
  then have a: "ones_inv env ctx (3 * n + 3)
               (window_loop env 0x15 0 (process env (replicate n 0x15) (init_state env ctx)))"
    using Suc.prems by (intro ones_byte) simp_all
  have "replicate (Suc n) (0x15 :: u8) = replicate n 0x15 @ [0x15]"
    by (simp add: replicate_append_same)
  then have b: "process env (replicate (Suc n) 0x15) (init_state env ctx)
                  = window_loop env 0x15 0 (process env (replicate n 0x15) (init_state env ctx))"
    by (simp only: process_append process.simps)
  have c: "3 * Suc n = 3 * n + 3" by simp
  show ?case
    unfolding b c using a .
qed

text \<open>
  C2 (what the code does instead).  The full-block path is taken when
  \<^verbatim>\<open>buffercounter > BUFFER_SIZE\<close>, that is after \<open>8 * (BUFFER_SIZE + 1)\<close> emitted
  bits and not after \<open>8 * BUFFER_SIZE\<close>.  On a stream of bytes \<^verbatim>\<open>0x15\<close>, each
  of which emits three bits 1, as long as fewer than \<open>8 * (BUFFER_SIZE + 1)\<close> bits
  have been emitted the health test has not been called and nothing is written,
  and every bit emitted after the first \<open>8 * BUFFER_SIZE\<close> is stored at byte index
  \<^verbatim>\<open>BUFFER_SIZE\<close>, beyond the end of \<^verbatim>\<open>bitbuffer\<close>.  The witness takes
  \<^verbatim>\<open>BUFFER_SIZE = 2500\<close> and 6667 bytes: 20001 bits, one store out of range.
\<close>

theorem overrun_before_health_test:
  assumes "3 * n < 8 * (BUFFER_SIZE env + 1)"
  shows "cursor (process env (replicate n 0x15) (init_state env ctx)) = 3 * n \<and>
         fipsctx (process env (replicate n 0x15) (init_state env ctx)) = ctx \<and>
         outputf (process env (replicate n 0x15) (init_state env ctx)) = [] \<and>
         length (overrun (process env (replicate n 0x15) (init_state env ctx)))
           = 3 * n - 8 * BUFFER_SIZE env"
  using ones_run[OF assms, of ctx] by (simp add: ones_inv_def)

theorem overrun_before_health_test_witness:
  "cursor (process (env_2500 0) (replicate 6667 0x15) (init_state (env_2500 0) [])) = 20001 \<and>
   fipsctx (process (env_2500 0) (replicate 6667 0x15) (init_state (env_2500 0) [])) = [] \<and>
   outputf (process (env_2500 0) (replicate 6667 0x15) (init_state (env_2500 0) [])) = [] \<and>
   length (overrun (process (env_2500 0) (replicate 6667 0x15) (init_state (env_2500 0) []))) = 1"
proof -
  have b: "BUFFER_SIZE (env_2500 0) = 2500"
    by (simp add: env_2500_def)
  have "3 * 6667 < 8 * (BUFFER_SIZE (env_2500 0) + 1)"
    unfolding b by simp
  from overrun_before_health_test[OF this, of "[]"] show ?thesis
    unfolding b by simp
qed

lemma overrun_small_run:
  "process (demo_env 0 0 0) (replicate 3 0x15) demo_init
     = demo_init\<lparr>bitbuffer := [0xFF], bitbuffer_old := [1], buffercounter := 1,
                 bitcounter := 1, overrun := [(1, 1)]\<rparr>"
  by code_simp

section \<open>The windows of a byte\<close>

text \<open>What one window does, and the three windows of a byte when no block fails the
  health test.\<close>

lemma debias_window:
  "emits byte j \<Longrightarrow>
     debias byte j s
       = (if drop_bit j byte AND 1 \<noteq> 0 then store_one s else s)\<lparr>bitcounter := bitcounter s + 1\<rparr>"
  "\<not> emits byte j \<Longrightarrow>
     debias byte j s = store_hash_data (if drop_bit j byte AND 1 \<noteq> 0 then 1 else 0) s"
  by (auto simp: debias_def emits_def Let_def store_one_other)

lemma three_windows:
  assumes "\<And>c blk. fst (fips_run_rng_test env c blk) = 0"
  shows "window_loop env byte 0 s =
           snd (window_body env byte 4 (snd (window_body env byte 2 (snd (window_body env byte 0 s)))))"
  by (rule window_loop_unroll) (simp_all add: fst_window_body_pass[OF assms])

text \<open>
  C5 (what the code does instead).  The report loop of the failure branch counts
  with the variable \<^verbatim>\<open>j\<close> of the window loop.  When the window at \<open>j\<close> completes
  a block that fails the health test, \<^verbatim>\<open>j\<close> is left at \<^verbatim>\<open>N_FIPS_TESTS\<close>; with
  four tests or more the window loop then ends, and the windows of this byte that
  were still to come are not examined.  In the witness the sixth byte \<^verbatim>\<open>0x15\<close>
  completes a failing block in its first window: its two other windows, which both
  emit a bit, are skipped, and the cursor is at 0 where it is at 2 when the same
  block passes.
\<close>

theorem failed_block_skips_windows:
  assumes "j < 6" and "4 \<le> N_FIPS_TESTS env"
    and "BUFFER_SIZE env < buffercounter (candidate byte j s)"
    and "fips_run_rng_test env (fipsctx s) (bitbuffer (candidate byte j s)) = (r, ctx)"
    and "r \<noteq> 0"
  shows "window_loop env byte j s = snd (window_body env byte j s)"
proof -
  have "fst (window_body env byte j s) = N_FIPS_TESTS env"
    using assms(3-5) buffer_full_fail[of env "candidate byte j s" r ctx j]
    by (simp add: window_body_candidate candidate_fields)
  then have "window_loop env byte j s
               = window_loop env byte (N_FIPS_TESTS env + 2) (snd (window_body env byte j s))"
    using assms(1) window_loop.simps[of env byte j s]
    by (simp del: add_2_eq_Suc add_2_eq_Suc')
  also have "\<dots> = snd (window_body env byte j s)"
    using assms(2)
      window_loop.simps[of env byte "N_FIPS_TESTS env + 2" "snd (window_body env byte j s)"]
    by (simp del: add_2_eq_Suc add_2_eq_Suc')
  finally show ?thesis .
qed

theorem failed_block_skips_windows_witness:
  "window_loop (demo_env 0 0 3) 0x15 0 (process (demo_env 0 0 3) (replicate 5 0x15) demo_init)
     = snd (window_body (demo_env 0 0 3) 0x15 0
             (process (demo_env 0 0 3) (replicate 5 0x15) demo_init)) \<and>
   emits 0x15 2 \<and> emits 0x15 4 \<and>
   cursor (process (demo_env 0 0 3) (replicate 6 0x15) demo_init) = 0 \<and>
   cursor (process (demo_env 0 0 0) (replicate 6 0x15) demo_init) = 2"
proof -
  let ?env = "demo_env 0 0 3"
  let ?s = "process ?env (replicate 5 0x15) demo_init"
  have s: "?s = demo_init\<lparr>bitbuffer := [0xFF], bitbuffer_old := [0x7F],
             buffercounter := 1, bitcounter := 7,
             overrun := [(1, 1), (1, 2), (1, 4), (1, 8), (1, 16), (1, 32), (1, 64)]\<rparr>"
    by code_simp
  have h: "(0 :: nat) < 6" "4 \<le> N_FIPS_TESTS ?env"
    "BUFFER_SIZE ?env < buffercounter (candidate 0x15 0 ?s)"
    "fips_run_rng_test ?env (fipsctx ?s) (bitbuffer (candidate 0x15 0 ?s)) = (3, [[0xFF]])"
    "(3 :: int) \<noteq> 0"
    unfolding s by code_simp+
  have c: "cursor (process ?env (replicate 6 0x15) demo_init) = 0"
    "cursor (process (demo_env 0 0 0) (replicate 6 0x15) demo_init) = 2"
    by code_simp+
  show ?thesis
    using failed_block_skips_windows[OF h] c emits_15[of 2] emits_15[of 4] by simp
qed

section \<open>A stream of bytes 0x2A\<close>

lemma emits_2A: "j < 6 \<Longrightarrow> emits 0x2A j"
proof -
  assume "j < 6"
  then have "j \<in> {0, 1, 2, 3, 4, 5}" by auto
  then show ?thesis by (auto simp: emits_def)
qed

lemma candidate_emits_pool:
  assumes "emits byte j"
  shows "hash_loop (candidate byte j s) = hash_loop s"
    "hash_data_counter (candidate byte j s) = hash_data_counter s"
    "hash_data_bit_counter (candidate byte j s) = hash_data_bit_counter s"
    "hash_data_buffer (candidate byte j s) = hash_data_buffer s"
  using assms
  by (auto simp: candidate_def byte_full_def debias_def Let_def emits_def store_one_other)

lemma idle_pool_step:
  assumes enc: "gflags_encryption env \<noteq> 0" and e: "emits byte j" and inv: "idle_pool s"
  shows "idle_pool (snd (window_body env byte j s))"
proof -
  define t where "t = candidate byte j s"
  have t: "idle_pool t"
    using inv candidate_emits_pool[OF e, of s]
    by (simp add: idle_pool_def t_def candidate_fields)
  show ?thesis
    unfolding window_body_candidate t_def[symmetric]
  proof (cases rule: buffer_full_cases[of env t])
    case none
    then show "idle_pool (snd (buffer_full env j t))"
      using t by (simp add: buffer_full_no)
  next
    case (fail r ctx)
    then show "idle_pool (snd (buffer_full env j t))"
      using t by (simp add: buffer_full_fail idle_pool_def)
  next
    case (whiten ctx)
    then show "idle_pool (snd (buffer_full env j t))"
      using enc by simp
  next
    case (encrypt ctx)
    then show "idle_pool (snd (buffer_full env j t))"
      using t by (simp add: idle_pool_def)
  next
    case (unprimed ctx)
    then show "idle_pool (snd (buffer_full env j t))"
      using t by (simp add: buffer_full_unprimed idle_pool_def)
  qed
qed

lemma counted_step:
  assumes enc: "gflags_encryption env = 0"
    and pass: "\<And>c blk. fst (fips_run_rng_test env c blk) = 0"
    and e: "emits byte j" and inv: "counted env k s"
  shows "counted env (Suc k) (snd (window_body env byte j s))"
proof -
  let ?M = "8 * (BUFFER_SIZE env + 1)"
  define t where "t = candidate byte j s"
  have ok: "state_ok env s" and c: "cursor s = k mod ?M" and l: "length (outputf s) = k div ?M"
    using inv by (simp_all add: counted_def)
  have ok': "state_ok env (snd (window_body env byte j s))"
    using ok by (rule window_body_state_ok)
  have ct: "cursor t = Suc (k mod ?M)"
    using candidate_cursor(1)[OF ok, of byte j] e c by (simp add: t_def)
  have full: "BUFFER_SIZE env < buffercounter t \<longleftrightarrow> Suc (k mod ?M) = ?M"
    using candidate_cursor(3)[OF ok, of byte j] e c by (simp add: t_def)
  show ?thesis
  proof (cases "BUFFER_SIZE env < buffercounter t")
    case False
    then have "snd (window_body env byte j s) = t"
      by (simp add: window_body_candidate t_def buffer_full_no)
    moreover have "Suc (k mod ?M) \<noteq> ?M"
      using False full by simp
    ultimately show ?thesis
      using ok' ct l by (simp add: counted_def mod_Suc div_Suc candidate_fields t_def)
  next
    case True
    obtain ctx where f: "fips_run_rng_test env (fipsctx t) (bitbuffer t) = (0, ctx)"
      using pass[of "fipsctx t" "bitbuffer t"]
      by (cases "fips_run_rng_test env (fipsctx t) (bitbuffer t)") simp
    have b0: "bitcounter t = 0"
      using candidate_full[of s env byte j] ok True by (simp add: state_ok_def t_def)
    have w: "snd (window_body env byte j s)
               = t\<lparr>fipsctx := ctx,
                    outputf := outputf t @ [take (BUFFER_SIZE env) (bitbuffer_old t)],
                    bitbuffer_old := map (\<lambda>k. (bitbuffer t ! k) XOR (bitbuffer_old t ! k))
                                       [0..<BUFFER_SIZE env],
                    bitbuffer := replicate (BUFFER_SIZE env) 0, buffercounter := 0\<rparr>"
      using buffer_full_whiten[OF True f enc, of j]
      by (simp add: window_body_candidate t_def)
    have e: "Suc (k mod ?M) = ?M"
      using True full by simp
    have "cursor (snd (window_body env byte j s)) = Suc k mod ?M"
      using b0 e by (simp add: w cursor_def mod_Suc)
    moreover have "length (outputf (snd (window_body env byte j s))) = Suc k div ?M"
      using l e by (simp add: w div_Suc mod_Suc candidate_fields t_def)
    ultimately show ?thesis
      using ok' by (simp add: counted_def)
  qed
qed

lemma counted_byte:
  assumes enc: "gflags_encryption env = 0"
    and pass: "\<And>c blk. fst (fips_run_rng_test env c blk) = 0"
    and inv: "counted env k s"
  shows "counted env (k + 3) (window_loop env 0x2A 0 s)"
proof -
  let ?s0 = "snd (window_body env 0x2A 0 s)"
  let ?s2 = "snd (window_body env 0x2A 2 ?s0)"
  let ?s4 = "snd (window_body env 0x2A 4 ?s2)"
  have e: "emits 0x2A 0" "emits 0x2A 2" "emits 0x2A 4"
    by (simp_all add: emits_2A)
  have "counted env (Suc k) ?s0"
    using enc pass e(1) inv by (rule counted_step)
  then have "counted env (Suc (Suc k)) ?s2"
    using enc pass e(2) by (rule counted_step[rotated 3])
  then have "counted env (Suc (Suc (Suc k))) ?s4"
    using enc pass e(3) by (rule counted_step[rotated 3])
  moreover have "window_loop env 0x2A 0 s = ?s4"
    by (rule window_loop_unroll) (simp_all add: fst_window_body_pass[OF pass])
  ultimately show ?thesis
    by (simp add: numeral_3_eq_3)
qed

lemma counted_run:
  assumes enc: "gflags_encryption env = 0"
    and pass: "\<And>c blk. fst (fips_run_rng_test env c blk) = 0"
  shows "counted env (3 * n) (process env (replicate n 0x2A) (init_state env ctx))"
proof (induction n)
  case 0
  then show ?case
    using init_state_ok[of env ctx] by (simp add: counted_def cursor_def init_state_def)
next
  case (Suc n)
  have a: "counted env (3 * n + 3)
             (window_loop env 0x2A 0 (process env (replicate n 0x2A) (init_state env ctx)))"
    using enc pass Suc by (rule counted_byte)
  have "replicate (Suc n) (0x2A :: u8) = replicate n 0x2A @ [0x2A]"
    by (simp add: replicate_append_same)
  then have b: "process env (replicate (Suc n) 0x2A) (init_state env ctx)
                  = window_loop env 0x2A 0 (process env (replicate n 0x2A) (init_state env ctx))"
    by (simp only: process_append process.simps)
  have c: "3 * Suc n = 3 * n + 3" by simp
  show ?case
    unfolding b c using a .
qed

text \<open>
  C8 (what the code does).  Every window of the byte \<^verbatim>\<open>0x2A\<close> has two different
  bits, so each emits a bit and none goes to the discard pool.  In encrypted mode,
  however long the stream is, the pool cursor stays at 0, the pool is never primed
  and nothing is written.  In whitening mode with a health test that passes every
  block, the number of writes after \<open>n\<close> bytes is \<open>3 * n div (8 * (BUFFER_SIZE + 1))\<close>:
  the first write comes after \<open>8 * (BUFFER_SIZE + 1)\<close> emitted bits, eight bits later
  than one block of \<^verbatim>\<open>BUFFER_SIZE\<close> bytes.  The witness takes
  \<^verbatim>\<open>BUFFER_SIZE = 2500\<close>: nothing is written after 6667 bytes (20001 bits), one
  write after 6670 bytes.
\<close>

theorem stream_of_2A:
  "emits 0x2A 0 \<and> emits 0x2A 2 \<and> emits 0x2A 4 \<and>
   (gflags_encryption env \<noteq> 0 \<longrightarrow>
      outputf (process env (replicate n 0x2A) (init_state env ctx)) = [] \<and>
      hash_loop (process env (replicate n 0x2A) (init_state env ctx)) = 0 \<and>
      pool_pos (process env (replicate n 0x2A) (init_state env ctx)) = 0) \<and>
   (gflags_encryption env = 0 \<and> (\<forall>c blk. fst (fips_run_rng_test env c blk) = 0) \<longrightarrow>
      length (outputf (process env (replicate n 0x2A) (init_state env ctx)))
        = (3 * n) div (8 * (BUFFER_SIZE env + 1)))"
proof -
  have "idle_pool (process env (replicate n 0x2A) (init_state env ctx))"
    if "gflags_encryption env \<noteq> 0"
  proof (rule process_invariant[where P=idle_pool])
    show "idle_pool (init_state env ctx)"
      by (simp add: idle_pool_def init_state_def)
  qed (use that in \<open>auto simp: idle_pool_step emits_2A\<close>)
  moreover have "counted env (3 * n) (process env (replicate n 0x2A) (init_state env ctx))"
    if "gflags_encryption env = 0" "\<forall>c blk. fst (fips_run_rng_test env c blk) = 0"
    using that by (intro counted_run) simp_all
  ultimately show ?thesis
    by (auto simp: idle_pool_def counted_def pool_pos_def emits_2A)
qed

theorem stream_of_2A_witness:
  "outputf (process (env_2500 1) (replicate 6670 0x2A) (init_state (env_2500 1) [])) = [] \<and>
   outputf (process (env_2500 0) (replicate 6667 0x2A) (init_state (env_2500 0) [])) = [] \<and>
   length (outputf (process (env_2500 0) (replicate 6670 0x2A) (init_state (env_2500 0) []))) = 1"
proof -
  have b: "BUFFER_SIZE (env_2500 e) = 2500" "gflags_encryption (env_2500 e) = e"
    "fst (fips_run_rng_test (env_2500 e) c blk) = 0" for e c blk
    by (simp_all add: env_2500_def demo_env_def)
  have 1: "outputf (process (env_2500 1) (replicate 6670 0x2A) (init_state (env_2500 1) [])) = []"
    using stream_of_2A[of "env_2500 1" 6670 "[]"] b by simp
  have 2: "length (outputf (process (env_2500 0) (replicate 6667 0x2A) (init_state (env_2500 0) []))) = 0"
    using stream_of_2A[of "env_2500 0" 6667 "[]"] unfolding b by simp
  have 3: "length (outputf (process (env_2500 0) (replicate 6670 0x2A) (init_state (env_2500 0) []))) = 1"
    using stream_of_2A[of "env_2500 0" 6670 "[]"] unfolding b by simp
  show ?thesis using 1 2 3 by simp
qed

lemma stream_of_2A_small_run:
  "observed (process (demo_env 0 0 0) (replicate 3 0x2A) demo_init) = ([], [], [0], [], 0) \<and>
   observed (process (demo_env 0 0 0) (replicate 6 0x2A) demo_init) = ([[0]], [[0]], [0], [], 0)"
  by code_simp

end
